theory Spec2Isabelle
  imports Main "HOL-Library.Multiset"
begin

section \<open>Data model of the FPL live table (class FPLLiveTable)\<close>

text \<open>
  The engine reads four pieces of the application state: the fixtures, the live
  elements of the current gameweek, the player map of the bootstrap data and the
  current gameweek.  The constructor leaves the first three undefined until the
  first refresh, and every function guards against that, so they are options here.
  JavaScript numbers are integers in all the data concerned (ids, minutes, points).
\<close>

record fixture =
  event :: int
  team_h :: nat
  team_a :: nat
  started :: bool
  finished :: bool
  finished_provisional :: bool

record player =
  team :: nat
  element_type :: nat
  web_name :: string

record element_stats =
  minutes :: int
  total_points :: int
  bonus :: int
  bps :: int

record live_element =
  el_id :: nat
  stats :: "element_stats option"

record app =
  fixtures :: "fixture list option"
  liveData :: "live_element list option"
  players :: "(nat \<rightharpoonup> player) option"
  currentGameweek :: int

section \<open>Array.prototype.sort with a comparator\<close>

text \<open>
  The built-in sort is stable (ECMAScript 2019) and places \<open>a\<close> before \<open>b\<close> when the
  comparator is negative.  It is modelled as a stable insertion sort: an element is
  inserted in front of the first element that it does not have to follow, and the
  input is inserted from the right, so that equal elements keep their input order.
\<close>

fun insort_cmp :: "('a \<Rightarrow> 'a \<Rightarrow> int) \<Rightarrow> 'a \<Rightarrow> 'a list \<Rightarrow> 'a list" where
  "insort_cmp cmp x [] = [x]"
| "insort_cmp cmp x (y # ys) =
     (if cmp x y \<le> 0 then x # y # ys else y # insort_cmp cmp x ys)"

definition js_sort :: "('a \<Rightarrow> 'a \<Rightarrow> int) \<Rightarrow> 'a list \<Rightarrow> 'a list" where
  "js_sort cmp xs = foldr (insort_cmp cmp) xs []"

section \<open>Provisional bonus (calculateProvisionalBonus)\<close>

text \<open>An entry of \<open>playersInFixture\<close>: \<open>{id, bps}\<close> (the display name plays no part).\<close>

record fixture_player =
  p_id :: nat
  p_bps :: int

text \<open>The comparator of \<open>playersInFixture.sort((a, b) => b.bps - a.bps)\<close>.\<close>

definition bps_desc :: "fixture_player \<Rightarrow> fixture_player \<Rightarrow> int" where
  "bps_desc a b = p_bps b - p_bps a"

text \<open>
  The \<open>forEach\<close> over \<open>liveData.elements\<close>: an element is pushed when its player is
  known, plays for one of the two teams, and has \<open>stats?.minutes > 0\<close>; the pushed
  \<open>bps\<close> is \<open>stats?.bps || 0\<close>.
\<close>

definition in_fixture :: "(nat \<rightharpoonup> player) \<Rightarrow> fixture \<Rightarrow> live_element \<Rightarrow> bool" where
  "in_fixture ps f e =
     (case ps (el_id e) of
        None \<Rightarrow> False
      | Some pl \<Rightarrow> (team pl = team_h f \<or> team pl = team_a f) \<and>
          (case stats e of None \<Rightarrow> False | Some s \<Rightarrow> minutes s > 0))"

definition playersInFixture ::
  "(nat \<rightharpoonup> player) \<Rightarrow> live_element list \<Rightarrow> fixture \<Rightarrow> fixture_player list" where
  "playersInFixture ps els f =
     map (\<lambda>e. \<lparr>p_id = el_id e, p_bps = (case stats e of None \<Rightarrow> 0 | Some s \<Rightarrow> bps s)\<rparr>)
       (filter (in_fixture ps f) els)"

text \<open>
  The award loop \<open>while (i < playersInFixture.length && position <= 3)\<close>.  The list
  argument is the part of the sorted array from index \<open>i\<close> on; the inner loop takes
  the players tied at the BPS of the first one, all of whom are set to \<open>4 - position\<close>
  in the bonus map, and the position moves on by their number.
\<close>

definition set_bonus :: "int \<Rightarrow> (nat \<rightharpoonup> int) \<Rightarrow> fixture_player list \<Rightarrow> (nat \<rightharpoonup> int)" where
  "set_bonus b bonusMap tiedPlayers = foldl (\<lambda>m q. m(p_id q \<mapsto> b)) bonusMap tiedPlayers"

function award :: "nat \<Rightarrow> fixture_player list \<Rightarrow> (nat \<rightharpoonup> int) \<Rightarrow> (nat \<rightharpoonup> int)" where
  "award position [] bonusMap = bonusMap"
| "award position (p # ps) bonusMap =
     (if position \<le> 3 then
        award (position + length (takeWhile (\<lambda>q. p_bps q = p_bps p) (p # ps)))
          (dropWhile (\<lambda>q. p_bps q = p_bps p) (p # ps))
          (set_bonus (4 - int position) bonusMap (takeWhile (\<lambda>q. p_bps q = p_bps p) (p # ps)))
      else bonusMap)"
  by pat_completeness auto
termination
  by (relation "measure (\<lambda>(position, ps, bonusMap). length ps)")
     (auto simp: less_Suc_eq_le length_dropWhile_le)

definition fixture_bonus ::
  "(nat \<rightharpoonup> player) \<Rightarrow> live_element list \<Rightarrow> (nat \<rightharpoonup> int) \<Rightarrow> fixture \<Rightarrow> (nat \<rightharpoonup> int)" where
  "fixture_bonus ps els bonusMap f =
     award 1 (js_sort bps_desc (playersInFixture ps els f)) bonusMap"

definition calculateProvisionalBonus :: "app \<Rightarrow> (nat \<rightharpoonup> int)" where
  "calculateProvisionalBonus a =
     (case fixtures a of None \<Rightarrow> Map.empty | Some fs \<Rightarrow>
       (case liveData a of None \<Rightarrow> Map.empty | Some els \<Rightarrow>
         (case players a of None \<Rightarrow> Map.empty | Some ps \<Rightarrow>
            foldl (fixture_bonus ps els) Map.empty
              (filter (\<lambda>f. event f = currentGameweek a \<and> started f) fs))))"

section \<open>Local auto-substitutions (calculateLocalAutoSubs)\<close>

record pick =
  element :: nat
  multiplier :: int
  is_captain :: bool

record autosub =
  element_in :: nat
  element_out :: nat
  sub_entry :: nat
  sub_event :: int

text \<open>
  The picks response of one manager.  \<open>picks\<close> is the array of 15 picks (absent in
  an error response, which the guards test with \<open>!picks?.picks\<close>), \<open>active_chip\<close>
  is null or one of \<open>'bboost'\<close>, \<open>'3xc'\<close>, \<open>'freehit'\<close>, \<open>'wildcard'\<close>, and
  \<open>automatic_subs\<close> is the list the upstream API reports, if any.
\<close>

record entry_picks =
  picks :: "pick list option"
  active_chip :: "string option"
  automatic_subs :: "autosub list option"
  entry :: nat

text \<open>\<open>this.liveData.elements.find(e => e.id === id)\<close> and \<open>liveElement?.stats?.minutes || 0\<close>.\<close>

definition find_element :: "live_element list \<Rightarrow> nat \<Rightarrow> live_element option" where
  "find_element els i = find (\<lambda>e. el_id e = i) els"

definition minutes_of :: "live_element list \<Rightarrow> nat \<Rightarrow> int" where
  "minutes_of els i =
     (case find_element els i of
        None \<Rightarrow> 0
      | Some e \<Rightarrow> (case stats e of None \<Rightarrow> 0 | Some s \<Rightarrow> minutes s))"

text \<open>The first fixture of the current gameweek in which the team plays.\<close>

definition team_fixture :: "fixture list \<Rightarrow> int \<Rightarrow> nat \<Rightarrow> fixture option" where
  "team_fixture fs gw t = find (\<lambda>f. event f = gw \<and> (team_h f = t \<or> team_a f = t)) fs"

text \<open>\<open>playerFixture?.finished || playerFixture?.finished_provisional\<close>\<close>

definition fixtureFinished :: "fixture option \<Rightarrow> bool" where
  "fixtureFinished fo =
     (case fo of None \<Rightarrow> False | Some f \<Rightarrow> finished f \<or> finished_provisional f)"

text \<open>\<open>benchFixture?.started\<close>\<close>

definition benchFixtureStarted :: "fixture option \<Rightarrow> bool" where
  "benchFixtureStarted fo = (case fo of None \<Rightarrow> False | Some f \<Rightarrow> started f)"

text \<open>\<open>needsSub\<close>: 0 minutes and the fixture finished.\<close>

definition needsSub :: "live_element list \<Rightarrow> fixture list \<Rightarrow> int \<Rightarrow> pick \<Rightarrow> player \<Rightarrow> bool" where
  "needsSub els fs gw pk pl =
     (minutes_of els (element pk) = 0 \<and> fixtureFinished (team_fixture fs gw (team pl)))"

text \<open>
  The formation count \<open>{1: 0, 2: 0, 3: 0, 4: 0}\<close>, indexed by \<open>element_type\<close>
  (1 = GK, 2 = DEF, 3 = MID, 4 = FWD); a key not yet present reads as 0.  The first
  loop counts the starters that do not need a substitution.
\<close>

definition count_starter ::
  "(nat \<rightharpoonup> player) \<Rightarrow> live_element list \<Rightarrow> fixture list \<Rightarrow> int \<Rightarrow> (nat \<Rightarrow> nat) \<Rightarrow> pick \<Rightarrow> (nat \<Rightarrow> nat)" where
  "count_starter ps els fs gw fc pk =
     (case ps (element pk) of
        None \<Rightarrow> fc
      | Some pl \<Rightarrow>
          if \<not> needsSub els fs gw pk pl
          then fc(element_type pl := fc (element_type pl) + 1)
          else fc)"

definition initial_formation ::
  "(nat \<rightharpoonup> player) \<Rightarrow> live_element list \<Rightarrow> fixture list \<Rightarrow> int \<Rightarrow> pick list \<Rightarrow> (nat \<Rightarrow> nat)" where
  "initial_formation ps els fs gw starting = foldl (count_starter ps els fs gw) (\<lambda>t. 0) starting"

text \<open>
  The body of the bench loop after the bench player has been looked up: every
  \<open>continue\<close> of the source is one conjunct that must not fire.  \<open>newFormation\<close> is
  the formation count with the bench player added.
\<close>

definition bench_player_valid ::
  "fixture list \<Rightarrow> int \<Rightarrow> (nat \<Rightarrow> nat) \<Rightarrow> player \<Rightarrow> player \<Rightarrow> bool" where
  "bench_player_valid fs gw fc pl benchPlayer =
     (let isStartingGK = (element_type pl = 1);
          isBenchGK = (element_type benchPlayer = 1);
          newFormation = fc(element_type benchPlayer := fc (element_type benchPlayer) + 1)
      in benchFixtureStarted (team_fixture fs gw (team benchPlayer)) \<and>
         \<not> (isStartingGK \<and> \<not> isBenchGK) \<and>
         \<not> (\<not> isStartingGK \<and> isBenchGK) \<and>
         (isStartingGK \<or>
            (\<not> (fc 2 < 3 \<and> element_type benchPlayer \<noteq> 2) \<and>
             \<not> newFormation 3 > 5 \<and>
             \<not> newFormation 4 > 3)))"

text \<open>
  The bench loop \<open>for (let i = 0; i < bench.length; i++)\<close>: used bench players and
  unknown players are passed over, and the first valid bench player ends the walk.
\<close>

fun find_replacement ::
  "(nat \<rightharpoonup> player) \<Rightarrow> fixture list \<Rightarrow> int \<Rightarrow> nat set \<Rightarrow> (nat \<Rightarrow> nat) \<Rightarrow> player \<Rightarrow> pick list
     \<Rightarrow> (pick \<times> player) option" where
  "find_replacement ps fs gw used fc pl [] = None"
| "find_replacement ps fs gw used fc pl (benchPick # bench) =
     (if element benchPick \<in> used then find_replacement ps fs gw used fc pl bench
      else case ps (element benchPick) of
        None \<Rightarrow> find_replacement ps fs gw used fc pl bench
      | Some benchPlayer \<Rightarrow>
          if bench_player_valid fs gw fc pl benchPlayer then Some (benchPick, benchPlayer)
          else find_replacement ps fs gw used fc pl bench)"

record sub_state =
  usedBenchPlayers :: "nat set"
  formationCount :: "nat \<Rightarrow> nat"
  autoSubs :: "autosub list"

text \<open>One round of the loop \<open>for (const pick of starting)\<close>.\<close>

definition process_starter ::
  "(nat \<rightharpoonup> player) \<Rightarrow> live_element list \<Rightarrow> fixture list \<Rightarrow> int \<Rightarrow> nat \<Rightarrow> pick list
     \<Rightarrow> sub_state \<Rightarrow> pick \<Rightarrow> sub_state" where
  "process_starter ps els fs gw ent bench st pk =
     (case ps (element pk) of
        None \<Rightarrow> st
      | Some pl \<Rightarrow>
          if minutes_of els (element pk) > 0 \<or> \<not> fixtureFinished (team_fixture fs gw (team pl))
          then st
          else
            (case find_replacement ps fs gw (usedBenchPlayers st) (formationCount st) pl bench of
               None \<Rightarrow> st
             | Some (benchPick, benchPlayer) \<Rightarrow>
                 \<lparr>usedBenchPlayers = insert (element benchPick) (usedBenchPlayers st),
                  formationCount = (formationCount st)
                    (element_type benchPlayer := formationCount st (element_type benchPlayer) + 1),
                  autoSubs = autoSubs st @
                    [\<lparr>element_in = element benchPick, element_out = element pk,
                      sub_entry = ent, sub_event = gw\<rparr>]\<rparr>))"

text \<open>The local computation: everything below the two early returns.\<close>

definition local_auto_subs ::
  "(nat \<rightharpoonup> player) \<Rightarrow> live_element list \<Rightarrow> fixture list \<Rightarrow> int \<Rightarrow> nat \<Rightarrow> pick list \<Rightarrow> autosub list" where
  "local_auto_subs ps els fs gw ent pks =
     (let starting = take 11 pks;
          bench = drop 11 pks
      in autoSubs
           (foldl (process_starter ps els fs gw ent bench)
              \<lparr>usedBenchPlayers = {},
               formationCount = initial_formation ps els fs gw starting,
               autoSubs = []\<rparr>
              starting))"

definition calculateLocalAutoSubs :: "app \<Rightarrow> entry_picks \<Rightarrow> autosub list" where
  "calculateLocalAutoSubs a p =
     (case picks p of None \<Rightarrow> [] | Some pks \<Rightarrow>
       (case liveData a of None \<Rightarrow> [] | Some els \<Rightarrow>
         (case fixtures a of None \<Rightarrow> [] | Some fs \<Rightarrow>
           (case players a of None \<Rightarrow> [] | Some ps \<Rightarrow>
              (case automatic_subs p of
                 None \<Rightarrow> local_auto_subs ps els fs (currentGameweek a) (entry p) pks
               | Some subs \<Rightarrow>
                   if length subs > 0 then subs
                   else local_auto_subs ps els fs (currentGameweek a) (entry p) pks)))))"

section \<open>Live score of a roster (calculateLiveInfo)\<close>

record live_info =
  played :: nat
  maxPlayers :: "nat option"
  captainName :: "string option"
  captainPlayed :: bool
  activeChip :: "string option"
  livePoints :: int

text \<open>\<open>liveElement?.stats?.minutes > 0\<close>, \<open>total_points || 0\<close> and \<open>bonus || 0\<close>.\<close>

definition hasPlayed :: "live_element list \<Rightarrow> nat \<Rightarrow> bool" where
  "hasPlayed els i =
     (case find_element els i of
        None \<Rightarrow> False
      | Some e \<Rightarrow> (case stats e of None \<Rightarrow> False | Some s \<Rightarrow> minutes s > 0))"

definition basePoints :: "live_element list \<Rightarrow> nat \<Rightarrow> int" where
  "basePoints els i =
     (case find_element els i of
        None \<Rightarrow> 0
      | Some e \<Rightarrow> (case stats e of None \<Rightarrow> 0 | Some s \<Rightarrow> total_points s))"

definition apiBonus :: "live_element list \<Rightarrow> nat \<Rightarrow> int" where
  "apiBonus els i =
     (case find_element els i of
        None \<Rightarrow> 0
      | Some e \<Rightarrow> (case stats e of None \<Rightarrow> 0 | Some s \<Rightarrow> bonus s))"

text \<open>
  \<open>calcBonus = provisionalBonus.get(pick.element) || 0\<close> and
  \<open>bonusToAdd = apiBonus > 0 ? 0 : calcBonus\<close>.
\<close>

definition calcBonus :: "(nat \<rightharpoonup> int) \<Rightarrow> nat \<Rightarrow> int" where
  "calcBonus provisionalBonus i = (case provisionalBonus i of None \<Rightarrow> 0 | Some b \<Rightarrow> b)"

definition bonusToAdd :: "live_element list \<Rightarrow> (nat \<rightharpoonup> int) \<Rightarrow> nat \<Rightarrow> int" where
  "bonusToAdd els provisionalBonus i =
     (if apiBonus els i > 0 then 0 else calcBonus provisionalBonus i)"

text \<open>
  \<open>isActive\<close> of the pick at \<open>index\<close>: a starter that was not substituted out, a
  pick that was substituted in, or a bench pick under Bench Boost.
\<close>

definition isActive :: "autosub list \<Rightarrow> bool \<Rightarrow> nat \<Rightarrow> pick \<Rightarrow> bool" where
  "isActive subs isBenchBoost index pk =
     ((index < 11 \<and> element pk \<notin> set (map element_out subs)) \<or>
      element pk \<in> set (map element_in subs) \<or>
      (isBenchBoost \<and> index \<ge> 11))"

text \<open>
  One round of \<open>activePicks.forEach\<close>, on the running counters.  The captain's name
  is \<open>player?.web_name || 'Unknown'\<close>, so an empty name reads as \<open>'Unknown'\<close> too.
  (The returned \<open>bonusPoints\<close> is the constant 0 and is left out of the record.)
\<close>

definition score_pick ::
  "(nat \<rightharpoonup> player) \<Rightarrow> live_element list \<Rightarrow> (nat \<rightharpoonup> int) \<Rightarrow> autosub list \<Rightarrow> bool
     \<Rightarrow> live_info \<Rightarrow> nat \<times> pick \<Rightarrow> live_info" where
  "score_pick ps els provisionalBonus subs isBenchBoost acc ip =
     (case ip of (index, pk) \<Rightarrow>
        if \<not> isActive subs isBenchBoost index pk then acc
        else
          (let points = basePoints els (element pk) + bonusToAdd els provisionalBonus (element pk);
               acc1 = (if hasPlayed els (element pk)
                       then acc\<lparr>played := played acc + 1,
                                livePoints := livePoints acc + points * multiplier pk\<rparr>
                       else acc)
           in if is_captain pk
              then acc1\<lparr>captainName :=
                          Some (case ps (element pk) of
                                  None \<Rightarrow> ''Unknown''
                                | Some pl \<Rightarrow>
                                    if web_name pl = [] then ''Unknown'' else web_name pl),
                        captainPlayed := hasPlayed els (element pk)\<rparr>
              else acc1))"

text \<open>
  The result is \<open>None\<close> where the source throws: the guard tests the picks and the
  live data only, and \<open>this.players.get\<close> at an active captain fails when the
  player map is still undefined.  (The refresh assigns the player map before the
  live data, so this state is not reached in a run of the application.)
\<close>

definition empty_live_info :: live_info where
  "empty_live_info =
     \<lparr>played = 0, maxPlayers = None, captainName = None, captainPlayed = False,
      activeChip = None, livePoints = 0\<rparr>"

definition calculateLiveInfo :: "app \<Rightarrow> entry_picks \<Rightarrow> live_info option" where
  "calculateLiveInfo a p =
     (case picks p of
        None \<Rightarrow> Some empty_live_info
      | Some pks \<Rightarrow>
          (case liveData a of
             None \<Rightarrow> Some empty_live_info
           | Some els \<Rightarrow>
               (let isBenchBoost = (active_chip p = Some ''bboost'');
                    autoSubs = calculateLocalAutoSubs a p;
                    start = \<lparr>played = 0, maxPlayers = Some (if isBenchBoost then 15 else 11),
                             captainName = None, captainPlayed = False,
                             activeChip = active_chip p, livePoints = 0\<rparr>
                in case players a of
                     None \<Rightarrow>
                       if list_ex (\<lambda>ip. isActive autoSubs isBenchBoost (fst ip) (snd ip) \<and>
                                         is_captain (snd ip)) (zip [0..<length pks] pks)
                       then None
                       else Some (foldl
                              (score_pick Map.empty els (calculateProvisionalBonus a) autoSubs
                                 isBenchBoost)
                              start (zip [0..<length pks] pks))
                   | Some ps \<Rightarrow>
                       Some (foldl
                              (score_pick ps els (calculateProvisionalBonus a) autoSubs
                                 isBenchBoost)
                              start (zip [0..<length pks] pks)))))"

section \<open>Scores of the league (calculateScores) and their order (sortScores)\<close>

text \<open>A row of the league standings, with the manager's career total.\<close>

record manager =
  m_entry :: nat
  m_total :: int

record history_row =
  h_event :: int
  h_points :: int

text \<open>\<open>managerData.get(entry)\<close>: \<open>{history, picks}\<close>, with \<open>history?.current\<close>.\<close>

record manager_data =
  history :: "history_row list option"
  data_picks :: entry_picks

record score =
  s_entry :: nat
  s_total :: int
  gameweekPoints :: int
  monthlyPoints :: int
  previousMonthlyPoints :: int
  playedPlayers :: nat
  s_maxPlayers :: nat
  captain :: "string option"
  s_captainPlayed :: bool
  s_activeChip :: "string option"
  s_livePoints :: int
  s_picks :: "entry_picks option"

text \<open>
  The state of the league view: the standings, the data fetched per manager, the
  first kickoff of every gameweek (reduced to its year and month, in the insertion
  order of the map), the selected month and the selected view.
\<close>

record league =
  standings :: "manager list option"
  managerData :: "nat \<rightharpoonup> manager_data"
  gameweekDates :: "(int \<times> int \<times> int) list"
  currentMonth :: "int \<times> int"
  currentView :: string

definition getGameweeksForMonth :: "league \<Rightarrow> int \<times> int \<Rightarrow> int list" where
  "getGameweeksForMonth l monthKey =
     js_sort (\<lambda>a b. a - b) (map fst (filter (\<lambda>gd. snd gd = monthKey) (gameweekDates l)))"

text \<open>
  The \<open>forEach\<close> over \<open>data.history.current\<close>: the points of the gameweeks of the
  month that are not the current one.
\<close>

definition monthlyPointsBeforeCurrentGW :: "int list \<Rightarrow> int \<Rightarrow> history_row list option \<Rightarrow> int" where
  "monthlyPointsBeforeCurrentGW monthGameweeks gw hist =
     (case hist of
        None \<Rightarrow> 0
      | Some rows \<Rightarrow>
          foldl (\<lambda>acc h. if h_event h \<in> set monthGameweeks \<and> h_event h \<noteq> gw
                          then acc + h_points h else acc) 0 rows)"

definition manager_score :: "app \<Rightarrow> league \<Rightarrow> int list \<Rightarrow> manager \<Rightarrow> score option" where
  "manager_score a l monthGameweeks m =
     (case managerData l (m_entry m) of
        None \<Rightarrow>
          Some \<lparr>s_entry = m_entry m, s_total = m_total m, gameweekPoints = 0, monthlyPoints = 0,
           previousMonthlyPoints = 0, playedPlayers = 0, s_maxPlayers = 11, captain = None,
           s_captainPlayed = False, s_activeChip = None, s_livePoints = 0, s_picks = None\<rparr>
      | Some d \<Rightarrow>
          (case calculateLiveInfo a (data_picks d) of
             None \<Rightarrow> None
           | Some liveInfo \<Rightarrow>
               (let before =
                      monthlyPointsBeforeCurrentGW monthGameweeks (currentGameweek a) (history d)
                in Some \<lparr>s_entry = m_entry m, s_total = m_total m,
                     gameweekPoints = livePoints liveInfo,
                     monthlyPoints =
                       (if currentGameweek a \<in> set monthGameweeks
                        then before + livePoints liveInfo else before),
                     previousMonthlyPoints = before,
                     playedPlayers = played liveInfo,
                     s_maxPlayers = (case maxPlayers liveInfo of None \<Rightarrow> 11 | Some n \<Rightarrow> n),
                     captain = captainName liveInfo,
                     s_captainPlayed = captainPlayed liveInfo,
                     s_activeChip = activeChip liveInfo,
                     s_livePoints = livePoints liveInfo,
                     s_picks = Some (data_picks d)\<rparr>)))"

text \<open>An exception in the callback of \<open>map\<close> ends the whole call.\<close>

definition calculateScores :: "app \<Rightarrow> league \<Rightarrow> score list option" where
  "calculateScores a l =
     (case standings l of
        None \<Rightarrow> Some []
      | Some results \<Rightarrow>
          those (map (manager_score a l (getGameweeksForMonth l (currentMonth l))) results))"

text \<open>The field selected by the view and the comparator of \<open>sortScores\<close>.\<close>

definition sort_field :: "string \<Rightarrow> score \<Rightarrow> int" where
  "sort_field view s = (if view = ''monthly'' then monthlyPoints s else gameweekPoints s)"

definition score_cmp :: "string \<Rightarrow> score \<Rightarrow> score \<Rightarrow> int" where
  "score_cmp view x y =
     (if sort_field view y \<noteq> sort_field view x then sort_field view y - sort_field view x
      else if gameweekPoints y \<noteq> gameweekPoints x then gameweekPoints y - gameweekPoints x
      else s_total y - s_total x)"

definition sortScores :: "league \<Rightarrow> score list \<Rightarrow> score list" where
  "sortScores l scores = js_sort (score_cmp (currentView l)) scores"

section \<open>Notions of the specification\<close>

text \<open>
  The award position of a player among the eligible players of a fixture: one more
  than the number of players with a strictly higher BPS.  Tied players share it, and
  the position after a group of tied players has moved on by their number.
\<close>

definition award_position :: "fixture_player list \<Rightarrow> fixture_player \<Rightarrow> nat" where
  "award_position ps p = 1 + length (filter (\<lambda>q. p_bps q > p_bps p) ps)"

text \<open>
  The ranking order: descending by the primary field of the view, then by the live
  points of the current gameweek, then by the career total.
\<close>

definition ranks_before :: "string \<Rightarrow> score \<Rightarrow> score \<Rightarrow> bool" where
  "ranks_before view x y =
     (sort_field view x > sort_field view y \<or>
      (sort_field view x = sort_field view y \<and>
        (gameweekPoints x > gameweekPoints y \<or>
         (gameweekPoints x = gameweekPoints y \<and> s_total x \<ge> s_total y))))"

definition rank_key :: "string \<Rightarrow> score \<Rightarrow> int \<times> int \<times> int" where
  "rank_key view x = (sort_field view x, gameweekPoints x, s_total x)"

section \<open>Concrete snapshots\<close>

text \<open>
  Gameweek 22 with three fixtures (teams 1 v 2, 3 v 4 and 5 v 6) and one roster of
  15 picks: picks 1 to 11 start, picks 12 to 15 are the bench, pick 10 is the captain.
\<close>

definition mk_el :: "nat \<times> int \<times> int \<times> int \<times> int \<Rightarrow> live_element" where
  "mk_el x = (case x of (i, mins, pts, bon, bp) \<Rightarrow>
     \<lparr>el_id = i, stats = Some \<lparr>minutes = mins, total_points = pts, bonus = bon, bps = bp\<rparr>\<rparr>)"

definition mk_fixture :: "nat \<Rightarrow> nat \<Rightarrow> bool \<Rightarrow> bool \<Rightarrow> fixture" where
  "mk_fixture h a st fin =
     \<lparr>event = 22, team_h = h, team_a = a, started = st, finished = fin, finished_provisional = fin\<rparr>"

definition mk_player :: "nat \<Rightarrow> nat \<Rightarrow> string \<Rightarrow> player" where
  "mk_player t ty n = \<lparr>team = t, element_type = ty, web_name = n\<rparr>"

definition mk_pick :: "nat \<Rightarrow> pick" where
  "mk_pick i = \<lparr>element = i, multiplier = (if i = 10 then 2 else 1), is_captain = (i = 10)\<rparr>"

definition squad_442 :: "nat \<rightharpoonup> player" where
  "squad_442 = [1 \<mapsto> mk_player 1 1 ''GK1'', 2 \<mapsto> mk_player 1 2 ''DEF2'', 3 \<mapsto> mk_player 1 2 ''DEF3'',
     4 \<mapsto> mk_player 2 2 ''DEF4'', 5 \<mapsto> mk_player 2 2 ''DEF5'', 6 \<mapsto> mk_player 2 3 ''MID6'',
     7 \<mapsto> mk_player 3 3 ''MID7'', 8 \<mapsto> mk_player 3 3 ''MID8'', 9 \<mapsto> mk_player 3 3 ''MID9'',
     10 \<mapsto> mk_player 4 4 ''FWD10'', 11 \<mapsto> mk_player 4 4 ''FWD11'', 12 \<mapsto> mk_player 6 1 ''GK12'',
     13 \<mapsto> mk_player 5 3 ''MID13'', 14 \<mapsto> mk_player 4 4 ''FWD14'', 15 \<mapsto> mk_player 6 2 ''DEF15'']"

definition squad_451 :: "nat \<rightharpoonup> player" where
  "squad_451 = [1 \<mapsto> mk_player 1 1 ''GK1'', 2 \<mapsto> mk_player 1 2 ''DEF2'', 3 \<mapsto> mk_player 1 2 ''DEF3'',
     4 \<mapsto> mk_player 2 2 ''DEF4'', 5 \<mapsto> mk_player 2 2 ''DEF5'', 6 \<mapsto> mk_player 2 3 ''MID6'',
     7 \<mapsto> mk_player 3 3 ''MID7'', 8 \<mapsto> mk_player 3 3 ''MID8'', 9 \<mapsto> mk_player 3 3 ''MID9'',
     10 \<mapsto> mk_player 4 3 ''MID10'', 11 \<mapsto> mk_player 4 4 ''FWD11'', 12 \<mapsto> mk_player 6 1 ''GK12'',
     13 \<mapsto> mk_player 5 2 ''DEF13'', 14 \<mapsto> mk_player 4 4 ''FWD14'', 15 \<mapsto> mk_player 6 3 ''MID15'']"

definition roster :: "string option \<Rightarrow> autosub list option \<Rightarrow> entry_picks" where
  "roster chip subs = \<lparr>picks = Some (map mk_pick [1, 2, 3, 4, 5, 6, 7, 8, 9, 10, 11, 12, 13, 14, 15]),
     active_chip = chip, automatic_subs = subs, entry = 7\<rparr>"

definition elements_pending :: "live_element list" where
  "elements_pending = map mk_el
     [(1, 90, 6, 2, 35), (2, 90, 6, 3, 40), (3, 90, 2, 0, 12), (4, 90, 1, 0, 9), (5, 90, 2, 0, 14),
      (6, 90, 5, 1, 30), (7, 90, 3, 0, 18), (8, 90, 10, 3, 50), (9, 0, 0, 0, 0), (10, 90, 8, 2, 45),
      (11, 90, 7, 1, 33), (12, 0, 0, 0, 0), (13, 0, 0, 0, 0), (14, 90, 5, 0, 20), (15, 0, 0, 0, 0)]"

definition elements_partial_bonus :: "live_element list" where
  "elements_partial_bonus = map mk_el
     [(1, 90, 6, 2, 35), (2, 90, 6, 3, 40), (3, 90, 2, 0, 12), (4, 90, 1, 0, 9), (5, 90, 2, 0, 14),
      (6, 90, 5, 1, 30), (7, 90, 3, 0, 18), (8, 90, 10, 3, 50), (9, 0, 0, 0, 0), (10, 90, 8, 0, 45),
      (11, 90, 7, 0, 33), (12, 0, 0, 0, 0), (13, 0, 0, 0, 0), (14, 90, 5, 0, 20), (15, 0, 0, 0, 0)]"

definition elements_single_fwd :: "live_element list" where
  "elements_single_fwd = map mk_el
     [(1, 90, 6, 2, 35), (2, 90, 6, 3, 40), (3, 90, 2, 0, 12), (4, 90, 1, 0, 9), (5, 90, 2, 0, 14),
      (6, 90, 5, 1, 30), (7, 90, 3, 0, 18), (8, 90, 10, 3, 50), (9, 90, 2, 0, 11), (10, 90, 8, 2, 45),
      (11, 0, 0, 0, 0), (12, 0, 0, 0, 0), (13, 90, 6, 3, 31), (14, 90, 5, 1, 20), (15, 0, 0, 0, 0)]"

definition fixtures_third_unstarted :: "fixture list" where
  "fixtures_third_unstarted =
     [mk_fixture 1 2 True True, mk_fixture 3 4 True True, mk_fixture 5 6 False False]"

definition fixtures_all_finished :: "fixture list" where
  "fixtures_all_finished =
     [mk_fixture 1 2 True True, mk_fixture 3 4 True True, mk_fixture 5 6 True True]"

definition app_pending :: app where
  "app_pending = \<lparr>fixtures = Some fixtures_third_unstarted,
     liveData = Some elements_pending, players = Some squad_442, currentGameweek = 22\<rparr>"

definition app_bench_unplayed :: app where
  "app_bench_unplayed = \<lparr>fixtures = Some fixtures_all_finished,
     liveData = Some elements_pending, players = Some squad_442, currentGameweek = 22\<rparr>"

definition app_partial_bonus :: app where
  "app_partial_bonus = \<lparr>fixtures = Some fixtures_third_unstarted,
     liveData = Some elements_partial_bonus, players = Some squad_442, currentGameweek = 22\<rparr>"

definition app_single_fwd :: app where
  "app_single_fwd = \<lparr>fixtures = Some fixtures_all_finished,
     liveData = Some elements_single_fwd, players = Some squad_451, currentGameweek = 22\<rparr>"

text \<open>Four scores for the ranking; the second and the fourth agree on every key.\<close>

definition mk_score :: "nat \<Rightarrow> int \<Rightarrow> int \<Rightarrow> int \<Rightarrow> score" where
  "mk_score e tot gw mon =
     \<lparr>s_entry = e, s_total = tot, gameweekPoints = gw, monthlyPoints = mon,
      previousMonthlyPoints = mon - gw, playedPlayers = 11, s_maxPlayers = 11, captain = None,
      s_captainPlayed = False, s_activeChip = None, s_livePoints = gw, s_picks = None\<rparr>"

definition scores_example :: "score list" where
  "scores_example =
     [mk_score 1 900 40 100, mk_score 2 950 63 113, mk_score 3 990 70 113, mk_score 4 950 63 113]"

definition bps_example :: "fixture_player list" where
  "bps_example =
     [\<lparr>p_id = 1, p_bps = 10\<rparr>, \<lparr>p_id = 2, p_bps = 10\<rparr>, \<lparr>p_id = 3, p_bps = 8\<rparr>,
      \<lparr>p_id = 4, p_bps = 8\<rparr>, \<lparr>p_id = 5, p_bps = 8\<rparr>, \<lparr>p_id = 6, p_bps = 5\<rparr>]"

text \<open>
  A league of one manager with the roster above: gameweeks 21 and 22 fall in the
  selected month, gameweek 23 in the next, and gameweek 21 brought 50 points.
\<close>

definition league_example :: league where
  "league_example =
     \<lparr>standings = Some [\<lparr>m_entry = 7, m_total = 950\<rparr>],
      managerData = [7 \<mapsto> \<lparr>history = Some [\<lparr>h_event = 21, h_points = 50\<rparr>],
                               data_picks = roster None None\<rparr>],
      gameweekDates = [(21, 2026, 0), (22, 2026, 0), (23, 2026, 1)],
      currentMonth = (2026, 0),
      currentView = ''monthly''\<rparr>"

section \<open>The sort: permutation, order, stability\<close>

lemma mset_insort_cmp: "mset (insort_cmp cmp x xs) = add_mset x (mset xs)"
  by (induction xs) auto

lemma mset_js_sort: "mset (js_sort cmp xs) = mset xs"
  unfolding js_sort_def by (induction xs) (auto simp: mset_insort_cmp)

lemma set_insort_cmp: "set (insort_cmp cmp x xs) = insert x (set xs)"
  by (induction xs) auto

lemma set_js_sort: "set (js_sort cmp xs) = set xs"
  unfolding js_sort_def by (induction xs) (auto simp: set_insort_cmp)

lemma sorted_insort_cmp:
  assumes tot: "\<And>a b. cmp a b \<le> 0 \<or> cmp b a \<le> 0"
    and trans: "\<And>a b c. cmp a b \<le> 0 \<Longrightarrow> cmp b c \<le> 0 \<Longrightarrow> cmp a c \<le> 0"
  shows "sorted_wrt (\<lambda>a b. cmp a b \<le> 0) xs \<Longrightarrow> sorted_wrt (\<lambda>a b. cmp a b \<le> 0) (insort_cmp cmp x xs)"
proof (induction xs)
  case Nil
  then show ?case by simp
next
  case (Cons y ys)
  show ?case
  proof (cases "cmp x y \<le> 0")
    case True
    with Cons.prems show ?thesis using trans by auto
  next
    case False
    then have "cmp y x \<le> 0" using tot[of x y] by simp
    with False Cons show ?thesis by (auto simp: set_insort_cmp)
  qed
qed

lemma sorted_js_sort:
  assumes tot: "\<And>a b. cmp a b \<le> 0 \<or> cmp b a \<le> 0"
    and trans: "\<And>a b c. cmp a b \<le> 0 \<Longrightarrow> cmp b c \<le> 0 \<Longrightarrow> cmp a c \<le> 0"
  shows "sorted_wrt (\<lambda>a b. cmp a b \<le> 0) (js_sort cmp xs)"
proof (induction xs)
  case Nil
  then show ?case by (simp add: js_sort_def)
next
  case (Cons x xs)
  have "js_sort cmp (x # xs) = insort_cmp cmp x (js_sort cmp xs)"
    by (simp add: js_sort_def)
  with Cons show ?case using sorted_insort_cmp[OF tot trans] by simp
qed

lemma filter_insort_cmp_tied:
  assumes "P x" and "\<And>y. P y \<Longrightarrow> cmp x y \<le> 0"
  shows "filter P (insort_cmp cmp x ys) = x # filter P ys"
  using assms by (induction ys) auto

lemma filter_insort_cmp_other:
  "\<not> P x \<Longrightarrow> filter P (insort_cmp cmp x ys) = filter P ys"
  by (induction ys) auto

lemma js_sort_stable:
  assumes "\<And>a b. P a \<Longrightarrow> P b \<Longrightarrow> cmp a b \<le> 0"
  shows "filter P (js_sort cmp xs) = filter P xs"
proof (induction xs)
  case Nil
  then show ?case by (simp add: js_sort_def)
next
  case (Cons x xs)
  have step: "js_sort cmp (x # xs) = insort_cmp cmp x (js_sort cmp xs)"
    by (simp add: js_sort_def)
  show ?case
  proof (cases "P x")
    case True
    then show ?thesis
      using assms Cons by (simp add: step filter_insort_cmp_tied)
  next
    case False
    then show ?thesis using Cons by (simp add: step filter_insort_cmp_other)
  qed
qed

section \<open>The award loop\<close>

lemma set_bonus_apply:
  "set_bonus b m qs x = (if x \<in> p_id ` set qs then Some b else m x)"
  unfolding set_bonus_def by (induction qs arbitrary: m) auto

lemma takeWhile_desc:
  "sorted_wrt (\<lambda>a b. p_bps a \<ge> p_bps b) ps \<Longrightarrow> \<forall>q\<in>set ps. p_bps q \<le> v \<Longrightarrow>
   takeWhile (\<lambda>q. p_bps q = v) ps = filter (\<lambda>q. p_bps q = v) ps"
proof (induction ps)
  case Nil
  then show ?case by simp
next
  case (Cons a ps)
  show ?case
  proof (cases "p_bps a = v")
    case True
    with Cons show ?thesis by simp
  next
    case False
    with Cons.prems have lt: "p_bps a < v" by simp
    with Cons.prems have "\<forall>q\<in>set ps. p_bps q \<noteq> v" by auto
    then have "filter (\<lambda>q. p_bps q = v) ps = []" by (simp add: filter_empty_conv)
    with False show ?thesis by simp
  qed
qed

lemma dropWhile_desc:
  "sorted_wrt (\<lambda>a b. p_bps a \<ge> p_bps b) ps \<Longrightarrow> \<forall>q\<in>set ps. p_bps q \<le> v \<Longrightarrow>
   dropWhile (\<lambda>q. p_bps q = v) ps = filter (\<lambda>q. p_bps q < v) ps"
proof (induction ps)
  case Nil
  then show ?case by simp
next
  case (Cons a ps)
  show ?case
  proof (cases "p_bps a = v")
    case True
    with Cons show ?thesis by simp
  next
    case False
    with Cons.prems have lt: "p_bps a < v" by simp
    with Cons.prems have "\<forall>q\<in>set ps. p_bps q < v" by auto
    then have "filter (\<lambda>q. p_bps q < v) ps = ps" by (simp add: filter_id_conv)
    with False lt show ?thesis by simp
  qed
qed

lemma award_untouched:
  "x \<notin> p_id ` set ps \<Longrightarrow> award position ps m x = m x"
proof (induction position ps m rule: award.induct)
  case (1 position bonusMap)
  then show ?case by simp
next
  case (2 position p ps bonusMap)
  show ?case
  proof (cases "position \<le> 3")
    case True
    have a: "x \<notin> p_id ` set (dropWhile (\<lambda>q. p_bps q = p_bps p) (p # ps))"
      using "2.prems" set_dropWhileD by fastforce
    have b: "x \<notin> p_id ` set (takeWhile (\<lambda>q. p_bps q = p_bps p) (p # ps))"
      using "2.prems" set_takeWhileD by fastforce
    have "award position (p # ps) bonusMap x =
        award (position + length (takeWhile (\<lambda>q. p_bps q = p_bps p) (p # ps)))
          (dropWhile (\<lambda>q. p_bps q = p_bps p) (p # ps))
          (set_bonus (4 - int position) bonusMap (takeWhile (\<lambda>q. p_bps q = p_bps p) (p # ps))) x"
      using True by (simp only: award.simps if_True)
    also have "\<dots> = set_bonus (4 - int position) bonusMap
          (takeWhile (\<lambda>q. p_bps q = p_bps p) (p # ps)) x"
      by (rule "2.IH"[OF True a])
    also have "\<dots> = bonusMap x"
      using b by (simp only: set_bonus_apply if_False)
    finally show ?thesis .
  next
    case False
    then show ?thesis by simp
  qed
qed

lemma length_filter_split:
  "length (filter Q xs) = length (filter (\<lambda>r. P r \<and> Q r) xs) + length (filter (\<lambda>r. \<not> P r \<and> Q r) xs)"
  by (induction xs) auto

lemma award_char:
  "sorted_wrt (\<lambda>a b. p_bps a \<ge> p_bps b) ps \<Longrightarrow> distinct (map p_id ps) \<Longrightarrow> q \<in> set ps \<Longrightarrow>
   award position ps m (p_id q) =
     (if position + length (filter (\<lambda>r. p_bps r > p_bps q) ps) \<le> 3
      then Some (4 - int (position + length (filter (\<lambda>r. p_bps r > p_bps q) ps)))
      else m (p_id q))"
proof (induction position ps m rule: award.induct)
  case (1 position bonusMap)
  then show ?case by simp
next
  case (2 position p ps bonusMap)
  let ?xs = "p # ps"
  let ?tied = "takeWhile (\<lambda>r. p_bps r = p_bps p) ?xs"
  let ?rest = "dropWhile (\<lambda>r. p_bps r = p_bps p) ?xs"
  have le: "\<forall>r\<in>set ?xs. p_bps r \<le> p_bps p" using "2.prems"(1) by auto
  have tied: "?tied = filter (\<lambda>r. p_bps r = p_bps p) ?xs"
    using takeWhile_desc[OF "2.prems"(1) le] .
  have rest: "?rest = filter (\<lambda>r. p_bps r < p_bps p) ?xs"
    using dropWhile_desc[OF "2.prems"(1) le] .
  have inj: "inj_on p_id (set ?xs)"
    using "2.prems"(2) by (simp only: distinct_map)
  show ?case
  proof (cases "position \<le> 3")
    case False
    then show ?thesis by simp
  next
    case True
    have unfold: "award position ?xs bonusMap =
        award (position + length ?tied) ?rest (set_bonus (4 - int position) bonusMap ?tied)"
      using True by (simp only: award.simps if_True)
    show ?thesis
    proof (cases "p_bps q = p_bps p")
      case eq: True
      have none: "filter (\<lambda>r. p_bps r > p_bps q) ?xs = []"
        using le eq by (auto simp: filter_empty_conv)
      have notrest: "p_id q \<notin> p_id ` set ?rest"
      proof
        assume "p_id q \<in> p_id ` set ?rest"
        then obtain r where r: "r \<in> set ?rest" "p_id r = p_id q" by (metis imageE)
        from r(1) have "r \<in> set ?xs" "p_bps r < p_bps p" unfolding rest by auto
        with inj r(2) "2.prems"(3) have "r = q" by (simp only: inj_on_def)
        with \<open>p_bps r < p_bps p\<close> eq show False by simp
      qed
      have intied: "p_id q \<in> p_id ` set ?tied"
        unfolding tied using eq "2.prems"(3) by auto
      have "award position ?xs bonusMap (p_id q)
          = set_bonus (4 - int position) bonusMap ?tied (p_id q)"
        unfolding unfold using notrest by (rule award_untouched)
      also have "\<dots> = Some (4 - int position)"
        using intied by (simp only: set_bonus_apply if_True)
      finally show ?thesis
        using True by (simp only: none list.size add_0_right if_True)
    next
      case neq: False
      with le "2.prems"(3) have lt: "p_bps q < p_bps p" by fastforce
      then have qrest: "q \<in> set ?rest" unfolding rest using "2.prems"(3) by auto
      have srest: "sorted_wrt (\<lambda>a b. p_bps a \<ge> p_bps b) ?rest"
        unfolding rest using "2.prems"(1) by (rule sorted_wrt_filter)
      have drest: "distinct (map p_id ?rest)"
        unfolding rest using "2.prems"(2) by (rule distinct_map_filter)
      have notin: "p_id q \<notin> p_id ` set ?tied"
      proof
        assume "p_id q \<in> p_id ` set ?tied"
        then obtain r where r: "r \<in> set ?tied" "p_id r = p_id q" by (metis imageE)
        from r(1) have "r \<in> set ?xs" "p_bps r = p_bps p" unfolding tied by auto
        with inj r(2) "2.prems"(3) have "r = q" by (simp only: inj_on_def)
        with \<open>p_bps r = p_bps p\<close> neq show False by simp
      qed
      have c1: "filter (\<lambda>r. p_bps r = p_bps p \<and> p_bps r > p_bps q) ?xs = ?tied"
        unfolding tied using lt by (intro filter_cong) auto
      have c2: "filter (\<lambda>r. \<not> p_bps r = p_bps p \<and> p_bps r > p_bps q) ?xs
                = filter (\<lambda>r. p_bps r > p_bps q) ?rest"
        unfolding rest filter_filter using le by (intro filter_cong) auto
      have count: "length (filter (\<lambda>r. p_bps r > p_bps q) ?xs)
          = length ?tied + length (filter (\<lambda>r. p_bps r > p_bps q) ?rest)"
        using length_filter_split[of "\<lambda>r. p_bps r > p_bps q" ?xs "\<lambda>r. p_bps r = p_bps p"]
        by (simp only: c1 c2)
      have m': "set_bonus (4 - int position) bonusMap ?tied (p_id q) = bonusMap (p_id q)"
        using notin by (simp only: set_bonus_apply if_False)
      show ?thesis
        unfolding unfold "2.IH"[OF True srest drest qrest] count m'
        by (simp add: add.assoc)
    qed
  qed
qed

lemma bps_desc_total: "bps_desc a b \<le> 0 \<or> bps_desc b a \<le> 0"
  by (auto simp: bps_desc_def)

lemma bps_desc_trans: "bps_desc a b \<le> 0 \<Longrightarrow> bps_desc b c \<le> 0 \<Longrightarrow> bps_desc a c \<le> 0"
  by (simp add: bps_desc_def)

lemma sorted_bps_desc: "sorted_wrt (\<lambda>a b. p_bps b \<le> p_bps a) (js_sort bps_desc ps)"
proof -
  have "sorted_wrt (\<lambda>a b. bps_desc a b \<le> 0) (js_sort bps_desc ps)"
    by (rule sorted_js_sort[OF bps_desc_total bps_desc_trans])
  then show ?thesis by (simp add: bps_desc_def)
qed

lemma length_filter_mset: "mset xs = mset ys \<Longrightarrow> length (filter P xs) = length (filter P ys)"
  by (metis mset_filter size_mset)

lemma distinct_ids_js_sort:
  "distinct (map p_id ps) \<Longrightarrow> distinct (map p_id (js_sort bps_desc ps))"
proof -
  assume d: "distinct (map p_id ps)"
  have "mset (map p_id (js_sort bps_desc ps)) = mset (map p_id ps)"
    by (simp add: mset_js_sort)
  then show ?thesis using d by (metis mset_eq_imp_distinct_iff)
qed

lemma award_sorted_example:
  "award 1 (js_sort bps_desc bps_example) Map.empty = [1 \<mapsto> 3, 2 \<mapsto> 3, 3 \<mapsto> 1, 4 \<mapsto> 1, 5 \<mapsto> 1]"
  by (simp add: bps_example_def js_sort_def bps_desc_def set_bonus_def fun_eq_iff)

text \<open>
  C4. The eligible players are sorted by BPS descending (a permutation of the
  input), and the award loop gives every player the bonus of their award position:
  3, 2, 1 for positions 1, 2, 3 and nothing beyond, where tied players share the
  position and the position moves on by the number of tied players.  For the BPS
  values 10, 10, 8, 8, 8, 5 the two players on 10 receive 3, the three on 8 receive 1,
  nobody receives 2 and the player on 5 receives nothing.
\<close>

theorem provisional_bonus_by_position:
  "distinct (map p_id ps) \<Longrightarrow>
     mset (js_sort bps_desc ps) = mset ps \<and>
     sorted_wrt (\<lambda>a b. p_bps b \<le> p_bps a) (js_sort bps_desc ps) \<and>
     (\<forall>p\<in>set ps. award 1 (js_sort bps_desc ps) Map.empty (p_id p) =
        (if award_position ps p \<le> 3 then Some (4 - int (award_position ps p)) else None)) \<and>
     (\<forall>x. x \<notin> p_id ` set ps \<longrightarrow> award 1 (js_sort bps_desc ps) Map.empty x = None) \<and>
     award 1 (js_sort bps_desc bps_example) Map.empty
        = [1 \<mapsto> 3, 2 \<mapsto> 3, 3 \<mapsto> 1, 4 \<mapsto> 1, 5 \<mapsto> 1] \<and>
     (\<forall>x. award 1 (js_sort bps_desc bps_example) Map.empty x \<noteq> Some 2) \<and>
     award 1 (js_sort bps_desc bps_example) Map.empty 6 = None"
proof (intro conjI ballI allI impI)
  assume d: "distinct (map p_id ps)"
  let ?s = "js_sort bps_desc ps"
  show "mset ?s = mset ps" by (rule mset_js_sort)
  show "sorted_wrt (\<lambda>a b. p_bps b \<le> p_bps a) ?s" by (rule sorted_bps_desc)
  show "award 1 ?s Map.empty (p_id p) =
        (if award_position ps p \<le> 3 then Some (4 - int (award_position ps p)) else None)"
    if "p \<in> set ps" for p
  proof -
    from that have "p \<in> set ?s" by (simp add: set_js_sort)
    note award_char[OF sorted_bps_desc distinct_ids_js_sort[OF d] this, of 1 Map.empty]
    moreover have "length (filter (\<lambda>r. p_bps p < p_bps r) ?s)
        = length (filter (\<lambda>r. p_bps p < p_bps r) ps)"
      by (rule length_filter_mset[OF mset_js_sort])
    ultimately show ?thesis by (simp add: award_position_def)
  qed
  show "award 1 ?s Map.empty x = None" if "x \<notin> p_id ` set ps" for x
    using that by (simp add: award_untouched set_js_sort)
  show "award 1 (js_sort bps_desc bps_example) Map.empty
        = [1 \<mapsto> 3, 2 \<mapsto> 3, 3 \<mapsto> 1, 4 \<mapsto> 1, 5 \<mapsto> 1]"
    by (rule award_sorted_example)
  show "award 1 (js_sort bps_desc bps_example) Map.empty x \<noteq> Some 2" for x
    unfolding award_sorted_example by simp
  show "award 1 (js_sort bps_desc bps_example) Map.empty 6 = None"
    unfolding award_sorted_example by simp
qed

theorem provisional_bonus_by_position_witness:
  "distinct (map p_id bps_example) \<and>
   award 1 (js_sort bps_desc bps_example) Map.empty 4 = Some 1 \<and>
   award_position bps_example \<lparr>p_id = 4, p_bps = 8\<rparr> = 3"
proof -
  have d: "distinct (map p_id bps_example)" by (simp add: bps_example_def)
  have m: "\<lparr>p_id = 4, p_bps = 8\<rparr> \<in> set bps_example" by (simp add: bps_example_def)
  have r: "award_position bps_example \<lparr>p_id = 4, p_bps = 8\<rparr> = 3"
    by (simp add: award_position_def bps_example_def)
  from provisional_bonus_by_position[OF d] m
  have "award 1 (js_sort bps_desc bps_example) Map.empty (p_id \<lparr>p_id = 4, p_bps = 8\<rparr>) =
        (if award_position bps_example \<lparr>p_id = 4, p_bps = 8\<rparr> \<le> 3
         then Some (4 - int (award_position bps_example \<lparr>p_id = 4, p_bps = 8\<rparr>)) else None)"
    by blast
  with d r show ?thesis by simp
qed

lemma award_sound:
  "award position ps m x = Some v \<Longrightarrow> 1 \<le> position \<Longrightarrow>
   m x = Some v \<or> (x \<in> p_id ` set ps \<and> v \<in> {1, 2, 3})"
proof (induction position ps m rule: award.induct)
  case (1 position bonusMap)
  then show ?case by simp
next
  case (2 position p ps bonusMap)
  let ?tied = "takeWhile (\<lambda>r. p_bps r = p_bps p) (p # ps)"
  let ?rest = "dropWhile (\<lambda>r. p_bps r = p_bps p) (p # ps)"
  show ?case
  proof (cases "position \<le> 3")
    case False
    with "2.prems" show ?thesis by simp
  next
    case True
    have "award (position + length ?tied) ?rest (set_bonus (4 - int position) bonusMap ?tied) x = Some v"
      using "2.prems"(1) True by (simp only: award.simps if_True)
    from "2.IH"[OF True this] "2.prems"(2)
    have "set_bonus (4 - int position) bonusMap ?tied x = Some v \<or>
          (x \<in> p_id ` set ?rest \<and> v \<in> {1, 2, 3})" by simp
    then show ?thesis
    proof
      assume "set_bonus (4 - int position) bonusMap ?tied x = Some v"
      then have "(x \<in> p_id ` set ?tied \<and> v = 4 - int position) \<or> bonusMap x = Some v"
        unfolding set_bonus_apply by (metis option.inject)
      moreover have "set ?tied \<subseteq> set (p # ps)" by (meson set_takeWhileD subsetI)
      moreover have "4 - int position \<in> {1, 2, 3}" using True "2.prems"(2) by auto
      ultimately show ?thesis by blast
    next
      assume "x \<in> p_id ` set ?rest \<and> v \<in> {1, 2, 3}"
      moreover have "set ?rest \<subseteq> set (p # ps)" by (meson set_dropWhileD subsetI)
      ultimately show ?thesis by blast
    qed
  qed
qed

lemma foldl_fixture_bonus_sound:
  "foldl (fixture_bonus ps els) m fs x = Some v \<Longrightarrow>
   m x = Some v \<or> (v \<in> {1, 2, 3} \<and> (\<exists>f\<in>set fs. x \<in> p_id ` set (playersInFixture ps els f)))"
proof (induction fs arbitrary: m)
  case Nil
  then show ?case by simp
next
  case (Cons f fs)
  from Cons.prems have "foldl (fixture_bonus ps els) (fixture_bonus ps els m f) fs x = Some v"
    by simp
  from Cons.IH[OF this] show ?case
  proof
    assume "fixture_bonus ps els m f x = Some v"
    then have "m x = Some v \<or> (x \<in> p_id ` set (js_sort bps_desc (playersInFixture ps els f)) \<and> v \<in> {1, 2, 3})"
      unfolding fixture_bonus_def by (rule award_sound) simp
    then show ?thesis by (auto simp: set_js_sort)
  next
    assume "v \<in> {1, 2, 3} \<and> (\<exists>f\<in>set fs. x \<in> p_id ` set (playersInFixture ps els f))"
    then show ?thesis by auto
  qed
qed

lemma playersInFixture_member:
  "x \<in> p_id ` set (playersInFixture ps els f) \<Longrightarrow>
   \<exists>e s pl. e \<in> set els \<and> el_id e = x \<and> stats e = Some s \<and> minutes s > 0 \<and>
     ps x = Some pl \<and> (team pl = team_h f \<or> team pl = team_a f)"
  by (fastforce simp: playersInFixture_def in_fixture_def split: option.splits)

section \<open>Evaluation of the concrete snapshots\<close>

lemmas snapshot_defs =
  mk_el_def mk_fixture_def mk_player_def mk_pick_def squad_442_def squad_451_def roster_def
  elements_pending_def elements_partial_bonus_def elements_single_fwd_def
  app_pending_def app_bench_unplayed_def app_partial_bonus_def app_single_fwd_def
  fixtures_third_unstarted_def fixtures_all_finished_def

lemmas bonus_defs =
  calculateProvisionalBonus_def fixture_bonus_def playersInFixture_def in_fixture_def
  js_sort_def bps_desc_def set_bonus_def

lemmas resolver_defs =
  calculateLocalAutoSubs_def local_auto_subs_def process_starter_def initial_formation_def
  count_starter_def needsSub_def minutes_of_def find_element_def team_fixture_def
  fixtureFinished_def benchFixtureStarted_def bench_player_valid_def

lemma provisional_pending:
  "calculateProvisionalBonus app_pending =
     [1 \<mapsto> 2, 2 \<mapsto> 3, 6 \<mapsto> 1, 8 \<mapsto> 3, 10 \<mapsto> 2, 11 \<mapsto> 1]"
  by (simp add: bonus_defs snapshot_defs fun_eq_iff)

text \<open>
  C10. Every value of the provisional bonus map is 1, 2 or 3, and every player in it
  has a live element with minutes above 0 and plays for one of the two teams of a
  fixture of the current gameweek that has started.  Hence a player none of whose
  fixtures of the current gameweek has started receives no provisional bonus.
\<close>

theorem provisional_bonus_sound:
  "(calculateProvisionalBonus a x = Some v \<longrightarrow>
      v \<in> {1, 2, 3} \<and>
      (\<exists>fs els ps e s pl f.
         fixtures a = Some fs \<and> liveData a = Some els \<and> players a = Some ps \<and>
         e \<in> set els \<and> el_id e = x \<and> stats e = Some s \<and> minutes s > 0 \<and>
         ps x = Some pl \<and> f \<in> set fs \<and> event f = currentGameweek a \<and> started f \<and>
         (team pl = team_h f \<or> team pl = team_a f))) \<and>
   (fixtures a = Some fs' \<and> players a = Some ps' \<and> ps' x = Some pl' \<and>
    (\<forall>f\<in>set fs'. event f = currentGameweek a \<and> (team pl' = team_h f \<or> team pl' = team_a f)
        \<longrightarrow> \<not> started f)
      \<longrightarrow> calculateProvisionalBonus a x = None)"
proof -
  have main: "v \<in> {1, 2, 3} \<and>
      (\<exists>fs els ps e s pl f.
         fixtures a = Some fs \<and> liveData a = Some els \<and> players a = Some ps \<and>
         e \<in> set els \<and> el_id e = x \<and> stats e = Some s \<and> minutes s > 0 \<and>
         ps x = Some pl \<and> f \<in> set fs \<and> event f = currentGameweek a \<and> started f \<and>
         (team pl = team_h f \<or> team pl = team_a f))"
    if some: "calculateProvisionalBonus a x = Some v" for v
  proof -
    from some obtain fs els ps where
      st: "fixtures a = Some fs" "liveData a = Some els" "players a = Some ps"
      by (auto simp: calculateProvisionalBonus_def split: option.splits)
    let ?gw = "filter (\<lambda>f. event f = currentGameweek a \<and> started f) fs"
    from some st have "foldl (fixture_bonus ps els) Map.empty ?gw x = Some v"
      by (simp add: calculateProvisionalBonus_def)
    from foldl_fixture_bonus_sound[OF this]
    obtain f where v: "v \<in> {1, 2, 3}" and f: "f \<in> set ?gw"
      and x: "x \<in> p_id ` set (playersInFixture ps els f)"
      by auto
    from playersInFixture_member[OF x] obtain e s pl where
      "e \<in> set els" "el_id e = x" "stats e = Some s" "minutes s > 0" "ps x = Some pl"
      "team pl = team_h f \<or> team pl = team_a f" by blast
    with st f v show ?thesis by auto
  qed
  have "calculateProvisionalBonus a x = None"
    if h: "fixtures a = Some fs'" "players a = Some ps'" "ps' x = Some pl'"
      "\<forall>f\<in>set fs'. event f = currentGameweek a \<and> (team pl' = team_h f \<or> team pl' = team_a f)
        \<longrightarrow> \<not> started f"
  proof (rule ccontr)
    assume "calculateProvisionalBonus a x \<noteq> None"
    then obtain w where "calculateProvisionalBonus a x = Some w" by auto
    from main[OF this] h show False by auto
  qed
  with main show ?thesis by blast
qed

theorem provisional_bonus_sound_witness:
  "calculateProvisionalBonus app_pending 8 = Some 3 \<and>
   (\<exists>e s pl (f::fixture). e \<in> set elements_pending \<and> el_id e = 8 \<and> stats e = Some s \<and> minutes s > 0 \<and>
      squad_442 8 = Some pl \<and> event f = 22 \<and> started f \<and>
      (team pl = team_h f \<or> team pl = team_a f)) \<and>
   squad_442 13 = Some (mk_player 5 3 ''MID13'') \<and>
   calculateProvisionalBonus app_pending 13 = None"
proof -
  have a: "calculateProvisionalBonus app_pending 8 = Some 3"
    unfolding provisional_pending by simp
  have st: "fixtures app_pending = Some fixtures_third_unstarted"
      "players app_pending = Some squad_442" "liveData app_pending = Some elements_pending"
      "currentGameweek app_pending = 22"
    by (simp_all add: app_pending_def)
  have p13: "squad_442 13 = Some (mk_player 5 3 ''MID13'')" by (simp add: squad_442_def)
  have un: "\<forall>f\<in>set fixtures_third_unstarted.
      event f = currentGameweek app_pending \<and>
      (team (mk_player 5 3 ''MID13'') = team_h f \<or> team (mk_player 5 3 ''MID13'') = team_a f)
        \<longrightarrow> \<not> started f"
    by (simp add: fixtures_third_unstarted_def mk_fixture_def mk_player_def st)
  from provisional_bonus_sound[of app_pending 8 3, THEN conjunct1, rule_format, OF a]
  obtain fs els ps e s pl f where w:
    "fixtures app_pending = Some fs" "liveData app_pending = Some els"
    "players app_pending = Some ps" "e \<in> set els" "el_id e = 8" "stats e = Some s"
    "minutes s > 0" "ps 8 = Some pl" "f \<in> set fs" "event f = currentGameweek app_pending"
    "started f" "team pl = team_h f \<or> team pl = team_a f"
    by blast
  from w(2,3) st have eq: "els = elements_pending" "ps = squad_442" by simp_all
  have "e \<in> set elements_pending \<and> el_id e = 8 \<and> stats e = Some s \<and>
      minutes s > 0 \<and> squad_442 8 = Some pl \<and> event f = 22 \<and> started f \<and>
      (team pl = team_h f \<or> team pl = team_a f)"
    using w(4-8,10-12) st(4) unfolding eq by simp
  then have 1: "\<exists>e s pl (f::fixture). e \<in> set elements_pending \<and> el_id e = 8 \<and> stats e = Some s \<and>
      minutes s > 0 \<and> squad_442 8 = Some pl \<and> event f = 22 \<and> started f \<and>
      (team pl = team_h f \<or> team pl = team_a f)"
    by blast
  from provisional_bonus_sound[of app_pending 13 _ fixtures_third_unstarted
      squad_442 "mk_player 5 3 ''MID13''"] st p13 un
  have 2: "calculateProvisionalBonus app_pending 13 = None" by blast
  from a 1 p13 2 show ?thesis by blast
qed

section \<open>The resolver and the live score on the snapshots\<close>

lemma subs_pending:
  "calculateLocalAutoSubs app_pending (roster chip None) =
     [\<lparr>element_in = 14, element_out = 9, sub_entry = 7, sub_event = 22\<rparr>]"
  by (simp add: resolver_defs snapshot_defs)

lemma subs_bench_unplayed:
  "calculateLocalAutoSubs app_bench_unplayed (roster None None) =
     [\<lparr>element_in = 13, element_out = 9, sub_entry = 7, sub_event = 22\<rparr>]"
  by (simp add: resolver_defs snapshot_defs)

lemma subs_single_fwd:
  "calculateLocalAutoSubs app_single_fwd (roster None None) =
     [\<lparr>element_in = 13, element_out = 11, sub_entry = 7, sub_event = 22\<rparr>]"
  by (simp add: resolver_defs snapshot_defs)

lemma provisional_partial_bonus:
  "calculateProvisionalBonus app_partial_bonus =
     [1 \<mapsto> 2, 2 \<mapsto> 3, 6 \<mapsto> 1, 8 \<mapsto> 3, 10 \<mapsto> 2, 11 \<mapsto> 1]"
  by (simp add: bonus_defs snapshot_defs fun_eq_iff)

lemma subs_partial_bonus:
  "calculateLocalAutoSubs app_partial_bonus (roster None None) =
     [\<lparr>element_in = 14, element_out = 9, sub_entry = 7, sub_event = 22\<rparr>]"
  by (simp add: resolver_defs snapshot_defs)

lemma zip_index: "zip [0..<length xs] xs = enumerate 0 xs"
  by (simp add: enumerate_eq_zip)

lemma roster_picks:
  "picks (roster chip subs) =
     Some (map mk_pick [1, 2, 3, 4, 5, 6, 7, 8, 9, 10, 11, 12, 13, 14, 15])"
  by (simp add: roster_def)

lemma indexed_roster:
  "enumerate 0 (map mk_pick [1, 2, 3, 4, 5, 6, 7, 8, 9, 10, 11, 12, 13, 14, 15]) =
   [(0, mk_pick 1), (1, mk_pick 2), (2, mk_pick 3), (3, mk_pick 4), (4, mk_pick 5), (5, mk_pick 6),
    (6, mk_pick 7), (7, mk_pick 8), (8, mk_pick 9), (9, mk_pick 10), (10, mk_pick 11),
    (11, mk_pick 12), (12, mk_pick 13), (13, mk_pick 14), (14, mk_pick 15)]"
  by (simp add: eval_nat_numeral)

lemma find_pending:
  "find_element elements_pending (Suc 0) = Some (mk_el (1, 90, 6, 2, 35))"
  "find_element elements_pending 1 = Some (mk_el (1, 90, 6, 2, 35))"
  "find_element elements_pending 2 = Some (mk_el (2, 90, 6, 3, 40))"
  "find_element elements_pending 3 = Some (mk_el (3, 90, 2, 0, 12))"
  "find_element elements_pending 4 = Some (mk_el (4, 90, 1, 0, 9))"
  "find_element elements_pending 5 = Some (mk_el (5, 90, 2, 0, 14))"
  "find_element elements_pending 6 = Some (mk_el (6, 90, 5, 1, 30))"
  "find_element elements_pending 7 = Some (mk_el (7, 90, 3, 0, 18))"
  "find_element elements_pending 8 = Some (mk_el (8, 90, 10, 3, 50))"
  "find_element elements_pending 9 = Some (mk_el (9, 0, 0, 0, 0))"
  "find_element elements_pending 10 = Some (mk_el (10, 90, 8, 2, 45))"
  "find_element elements_pending 11 = Some (mk_el (11, 90, 7, 1, 33))"
  "find_element elements_pending 12 = Some (mk_el (12, 0, 0, 0, 0))"
  "find_element elements_pending 13 = Some (mk_el (13, 0, 0, 0, 0))"
  "find_element elements_pending 14 = Some (mk_el (14, 90, 5, 0, 20))"
  "find_element elements_pending 15 = Some (mk_el (15, 0, 0, 0, 0))"
  by (simp_all add: find_element_def elements_pending_def mk_el_def)

lemma find_partial_bonus:
  "find_element elements_partial_bonus (Suc 0) = Some (mk_el (1, 90, 6, 2, 35))"
  "find_element elements_partial_bonus 1 = Some (mk_el (1, 90, 6, 2, 35))"
  "find_element elements_partial_bonus 2 = Some (mk_el (2, 90, 6, 3, 40))"
  "find_element elements_partial_bonus 3 = Some (mk_el (3, 90, 2, 0, 12))"
  "find_element elements_partial_bonus 4 = Some (mk_el (4, 90, 1, 0, 9))"
  "find_element elements_partial_bonus 5 = Some (mk_el (5, 90, 2, 0, 14))"
  "find_element elements_partial_bonus 6 = Some (mk_el (6, 90, 5, 1, 30))"
  "find_element elements_partial_bonus 7 = Some (mk_el (7, 90, 3, 0, 18))"
  "find_element elements_partial_bonus 8 = Some (mk_el (8, 90, 10, 3, 50))"
  "find_element elements_partial_bonus 9 = Some (mk_el (9, 0, 0, 0, 0))"
  "find_element elements_partial_bonus 10 = Some (mk_el (10, 90, 8, 0, 45))"
  "find_element elements_partial_bonus 11 = Some (mk_el (11, 90, 7, 0, 33))"
  "find_element elements_partial_bonus 12 = Some (mk_el (12, 0, 0, 0, 0))"
  "find_element elements_partial_bonus 13 = Some (mk_el (13, 0, 0, 0, 0))"
  "find_element elements_partial_bonus 14 = Some (mk_el (14, 90, 5, 0, 20))"
  "find_element elements_partial_bonus 15 = Some (mk_el (15, 0, 0, 0, 0))"
  by (simp_all add: find_element_def elements_partial_bonus_def mk_el_def)

lemmas score_defs =
  score_pick_def isActive_def hasPlayed_def basePoints_def apiBonus_def calcBonus_def
  bonusToAdd_def mk_el_def mk_pick_def mk_player_def

lemma captain_442: "squad_442 10 = Some (mk_player 4 4 ''FWD10'')"
  by (simp add: squad_442_def)

lemma live_pending:
  "calculateLiveInfo app_pending (roster None None) =
     Some \<lparr>played = 11, maxPlayers = Some 11, captainName = Some ''FWD10'',
       captainPlayed = True, activeChip = None, livePoints = 63\<rparr>"
proof -
  have st: "liveData app_pending = Some elements_pending" "players app_pending = Some squad_442"
    by (simp_all add: app_pending_def)
  have chip: "active_chip (roster None None) = None" by (simp add: roster_def)
  show ?thesis
    unfolding calculateLiveInfo_def subs_pending provisional_pending zip_index roster_picks
      option.case indexed_roster st chip Let_def
    by (simp add: score_defs find_pending captain_442)
qed

lemma live_partial_bonus:
  "calculateLiveInfo app_partial_bonus (roster None None) =
     Some \<lparr>played = 11, maxPlayers = Some 11, captainName = Some ''FWD10'',
       captainPlayed = True, activeChip = None, livePoints = 68\<rparr>"
proof -
  have st: "liveData app_partial_bonus = Some elements_partial_bonus"
    "players app_partial_bonus = Some squad_442"
    by (simp_all add: app_partial_bonus_def)
  have chip: "active_chip (roster None None) = None" by (simp add: roster_def)
  show ?thesis
    unfolding calculateLiveInfo_def subs_partial_bonus provisional_partial_bonus zip_index
      roster_picks option.case indexed_roster st chip Let_def
    by (simp add: score_defs find_partial_bonus captain_442)
qed

text \<open>
  C1. In the snapshot \<open>app_pending\<close> no chip is active and no upstream list is
  reported; the starting midfielder 9 has 0 minutes in a finished fixture, the bench
  midfielder 13 comes first among the outfield bench players and his fixture has not
  started, and the bench forward 14 has played.  The resolver passes over the bench
  midfielder and reports the forward as the substitute.
\<close>

theorem unstarted_candidate_passed_over:
  "active_chip (roster None None) = None \<and> automatic_subs (roster None None) = None \<and>
   squad_442 9 = Some (mk_player 3 3 ''MID9'') \<and>
   minutes_of elements_pending 9 = 0 \<and>
   fixtureFinished (team_fixture fixtures_third_unstarted 22 3) \<and>
   squad_442 13 = Some (mk_player 5 3 ''MID13'') \<and>
   \<not> benchFixtureStarted (team_fixture fixtures_third_unstarted 22 5) \<and>
   squad_442 14 = Some (mk_player 4 4 ''FWD14'') \<and>
   minutes_of elements_pending 14 = 90 \<and>
   calculateLocalAutoSubs app_pending (roster None None) =
     [\<lparr>element_in = 14, element_out = 9, sub_entry = 7, sub_event = 22\<rparr>]"
  unfolding subs_pending
  by (simp add: roster_def squad_442_def minutes_of_def find_pending mk_el_def
      fixtureFinished_def benchFixtureStarted_def team_fixture_def fixtures_third_unstarted_def
      mk_fixture_def)

text \<open>
  C2. In the snapshot \<open>app_bench_unplayed\<close> every fixture is finished and the bench
  midfielder 13 has 0 minutes; the resolver reports him as the substitute for the
  starting midfielder 9.
\<close>

theorem unplayed_bench_player_confirmed:
  "fixtureFinished (team_fixture fixtures_all_finished 22 5) \<and>
   minutes_of elements_pending 13 = 0 \<and>
   calculateLocalAutoSubs app_bench_unplayed (roster None None) =
     [\<lparr>element_in = 13, element_out = 9, sub_entry = 7, sub_event = 22\<rparr>]"
  unfolding subs_bench_unplayed
  by (simp add: minutes_of_def find_pending mk_el_def fixtureFinished_def team_fixture_def
      fixtures_all_finished_def mk_fixture_def)

text \<open>
  C3. In the snapshot \<open>app_partial_bonus\<close> players 8, 10 and 11 played in the fixture
  of teams 3 and 4; player 8 has an official bonus of 3, players 10 and 11 have none
  yet.  The live score adds the provisional bonus 2 and 1 to players 10 and 11: the
  roster total is 68, the 63 base points of the counting picks plus twice 2 for the
  captain 10 and 1 for player 11.
\<close>

theorem provisional_bonus_beside_official:
  "in_fixture squad_442 (mk_fixture 3 4 True True) (mk_el (8, 90, 10, 3, 50)) \<and>
   in_fixture squad_442 (mk_fixture 3 4 True True) (mk_el (10, 90, 8, 0, 45)) \<and>
   in_fixture squad_442 (mk_fixture 3 4 True True) (mk_el (11, 90, 7, 0, 33)) \<and>
   apiBonus elements_partial_bonus 8 = 3 \<and>
   apiBonus elements_partial_bonus 10 = 0 \<and>
   apiBonus elements_partial_bonus 11 = 0 \<and>
   bonusToAdd elements_partial_bonus (calculateProvisionalBonus app_partial_bonus) 10 = 2 \<and>
   bonusToAdd elements_partial_bonus (calculateProvisionalBonus app_partial_bonus) 11 = 1 \<and>
   map_option livePoints (calculateLiveInfo app_partial_bonus (roster None None)) = Some 68"
  unfolding live_partial_bonus provisional_partial_bonus
  by (simp add: in_fixture_def squad_442_def mk_el_def mk_fixture_def mk_player_def
      apiBonus_def bonusToAdd_def calcBonus_def find_partial_bonus)

text \<open>
  C5. In the snapshot \<open>app_single_fwd\<close> the roster starts one forward, pick 11, who
  has 0 minutes in a finished fixture, so no forward is left in the formation count.
  Both the bench defender 13 and the bench forward 14 have played; the resolver
  reports the defender, first in bench order, as the substitute, which leaves the
  formation without a forward.
\<close>

theorem forward_replaced_by_defender:
  "squad_451 11 = Some (mk_player 4 4 ''FWD11'') \<and>
   squad_451 13 = Some (mk_player 5 2 ''DEF13'') \<and>
   squad_451 14 = Some (mk_player 4 4 ''FWD14'') \<and>
   minutes_of elements_single_fwd 14 = 90 \<and>
   initial_formation squad_451 elements_single_fwd fixtures_all_finished 22
     (map mk_pick [1, 2, 3, 4, 5, 6, 7, 8, 9, 10, 11]) 4 = 0 \<and>
   calculateLocalAutoSubs app_single_fwd (roster None None) =
     [\<lparr>element_in = 13, element_out = 11, sub_entry = 7, sub_event = 22\<rparr>]"
  unfolding subs_single_fwd
  by (simp add: resolver_defs snapshot_defs)

text \<open>
  C6. With the Bench Boost chip active on the roster of \<open>app_pending\<close> the resolver
  still reports the substitution of pick 9 by pick 14, and the live score treats
  pick 9 (index 8) as not active.
\<close>

theorem bench_boost_subs_computed:
  "active_chip (roster (Some ''bboost'') None) = Some ''bboost'' \<and>
   calculateLocalAutoSubs app_pending (roster (Some ''bboost'') None) =
     [\<lparr>element_in = 14, element_out = 9, sub_entry = 7, sub_event = 22\<rparr>] \<and>
   \<not> isActive (calculateLocalAutoSubs app_pending (roster (Some ''bboost'') None)) True 8
         (mk_pick 9)"
  unfolding subs_pending
  by (simp add: roster_def isActive_def mk_pick_def)

section \<open>Upstream substitutions and monthly totals\<close>

text \<open>
  C7. On a loaded snapshot a non-empty upstream list is returned as it is, whatever
  the live data say; an upstream list that is present but empty gives the result of
  the local computation, the same as when no list is reported at all.
\<close>

theorem upstream_subs_returned_verbatim:
  "picks p = Some pks \<Longrightarrow> liveData a = Some els \<Longrightarrow> fixtures a = Some fs \<Longrightarrow>
   players a = Some ps \<Longrightarrow>
   (\<forall>subs. automatic_subs p = Some subs \<and> subs \<noteq> [] \<longrightarrow> calculateLocalAutoSubs a p = subs) \<and>
   (automatic_subs p = Some [] \<longrightarrow>
      calculateLocalAutoSubs a p = local_auto_subs ps els fs (currentGameweek a) (entry p) pks \<and>
      calculateLocalAutoSubs a p = calculateLocalAutoSubs a (p\<lparr>automatic_subs := None\<rparr>))"
proof (intro conjI allI impI)
  assume loaded: "picks p = Some pks" "liveData a = Some els" "fixtures a = Some fs"
    "players a = Some ps"
  show "calculateLocalAutoSubs a p = subs" if "automatic_subs p = Some subs \<and> subs \<noteq> []" for subs
    using loaded that by (simp add: calculateLocalAutoSubs_def)
  assume empty: "automatic_subs p = Some []"
  show "calculateLocalAutoSubs a p = local_auto_subs ps els fs (currentGameweek a) (entry p) pks"
    using loaded empty by (simp add: calculateLocalAutoSubs_def)
  show "calculateLocalAutoSubs a p = calculateLocalAutoSubs a (p\<lparr>automatic_subs := None\<rparr>)"
    using loaded empty by (simp add: calculateLocalAutoSubs_def)
qed

theorem upstream_subs_returned_verbatim_witness:
  "calculateLocalAutoSubs app_pending
     (roster None (Some [\<lparr>element_in = 15, element_out = 9, sub_entry = 7, sub_event = 22\<rparr>])) =
     [\<lparr>element_in = 15, element_out = 9, sub_entry = 7, sub_event = 22\<rparr>] \<and>
   calculateLocalAutoSubs app_pending (roster None (Some [])) =
     [\<lparr>element_in = 14, element_out = 9, sub_entry = 7, sub_event = 22\<rparr>]"
proof -
  have st: "liveData app_pending = Some elements_pending"
    "fixtures app_pending = Some fixtures_third_unstarted" "players app_pending = Some squad_442"
    by (simp_all add: app_pending_def)
  have up: "automatic_subs (roster None (Some subs)) = Some subs" for subs
    by (simp add: roster_def)
  have none: "(roster None (Some []))\<lparr>automatic_subs := None\<rparr> = roster None None"
    by (simp add: roster_def)
  note thm1 = upstream_subs_returned_verbatim[OF roster_picks st,
      of None "Some [\<lparr>element_in = 15, element_out = 9, sub_entry = 7, sub_event = 22\<rparr>]"]
  note thm2 = upstream_subs_returned_verbatim[OF roster_picks st, of None "Some []"]
  from thm1 up have 1: "calculateLocalAutoSubs app_pending
     (roster None (Some [\<lparr>element_in = 15, element_out = 9, sub_entry = 7, sub_event = 22\<rparr>])) =
     [\<lparr>element_in = 15, element_out = 9, sub_entry = 7, sub_event = 22\<rparr>]"
    by blast
  from thm2 up have "calculateLocalAutoSubs app_pending (roster None (Some [])) =
      calculateLocalAutoSubs app_pending ((roster None (Some []))\<lparr>automatic_subs := None\<rparr>)"
    by blast
  then have 2: "calculateLocalAutoSubs app_pending (roster None (Some [])) =
     [\<lparr>element_in = 14, element_out = 9, sub_entry = 7, sub_event = 22\<rparr>]"
    unfolding none subs_pending .
  from 1 2 show ?thesis by (rule conjI)
qed

lemma foldl_history_sum:
  "foldl (\<lambda>acc h. if P h then acc + h_points h else acc) z rows =
     z + sum_list (map h_points (filter P rows))"
  by (induction rows arbitrary: z) simp_all

lemma monthly_before_sum:
  "monthlyPointsBeforeCurrentGW mg gw (Some rows) =
     sum_list (map h_points (filter (\<lambda>h. h_event h \<in> set mg \<and> h_event h \<noteq> gw) rows))"
  by (simp add: monthlyPointsBeforeCurrentGW_def foldl_history_sum)

lemma live_info_total:
  "players a = Some ps \<Longrightarrow> \<exists>li. calculateLiveInfo a p = Some li"
  by (simp add: calculateLiveInfo_def Let_def split: option.splits)

lemma month_example:
  "getGameweeksForMonth league_example (currentMonth league_example) = [21, 22]"
  by (simp add: getGameweeksForMonth_def league_example_def js_sort_def)

lemma scores_pending:
  "calculateScores app_pending league_example =
     Some [\<lparr>s_entry = 7, s_total = 950, gameweekPoints = 63, monthlyPoints = 113,
       previousMonthlyPoints = 50, playedPlayers = 11, s_maxPlayers = 11,
       captain = Some ''FWD10'', s_captainPlayed = True, s_activeChip = None,
       s_livePoints = 63, s_picks = Some (roster None None)\<rparr>]"
proof -
  have l: "standings league_example = Some [\<lparr>m_entry = 7, m_total = 950\<rparr>]"
    "managerData league_example 7 = Some \<lparr>history = Some [\<lparr>h_event = 21, h_points = 50\<rparr>],
         data_picks = roster None None\<rparr>"
    by (simp_all add: league_example_def)
  have gw: "currentGameweek app_pending = 22" by (simp add: app_pending_def)
  show ?thesis
    unfolding calculateScores_def month_example l option.case
    by (simp add: manager_score_def l live_pending gw monthlyPointsBeforeCurrentGW_def)
qed

text \<open>
  C8. For a manager with fetched data and a point history, the score is produced
  and its monthly total is the sum of the history points of the gameweeks of the
  month other than the current one, plus the live total of the current gameweek
  when that gameweek belongs to the month.  With the history 21: 50, the current
  gameweek 22 at a live total of 63 and the month holding gameweeks 21 and 22, the
  monthly total is 113.
\<close>

theorem monthly_total:
  "players a = Some ps \<Longrightarrow> managerData l (m_entry m) = Some d \<Longrightarrow> history d = Some rows \<Longrightarrow>
   (\<exists>li s. calculateLiveInfo a (data_picks d) = Some li \<and>
        manager_score a l mg m = Some s \<and>
        gameweekPoints s = livePoints li \<and>
        monthlyPoints s =
          sum_list (map h_points
            (filter (\<lambda>h. h_event h \<in> set mg \<and> h_event h \<noteq> currentGameweek a) rows)) +
          (if currentGameweek a \<in> set mg then livePoints li else 0)) \<and>
   getGameweeksForMonth league_example (currentMonth league_example) = [21, 22] \<and>
   currentGameweek app_pending = 22 \<and>
   map_option (map gameweekPoints) (calculateScores app_pending league_example) = Some [63] \<and>
   map_option (map monthlyPoints) (calculateScores app_pending league_example) = Some [113]"
proof (intro conjI)
  assume h: "players a = Some ps" "managerData l (m_entry m) = Some d" "history d = Some rows"
  from live_info_total[OF h(1)] obtain li where li: "calculateLiveInfo a (data_picks d) = Some li"
    by blast
  show "\<exists>li s. calculateLiveInfo a (data_picks d) = Some li \<and>
        manager_score a l mg m = Some s \<and>
        gameweekPoints s = livePoints li \<and>
        monthlyPoints s =
          sum_list (map h_points
            (filter (\<lambda>h. h_event h \<in> set mg \<and> h_event h \<noteq> currentGameweek a) rows)) +
          (if currentGameweek a \<in> set mg then livePoints li else 0)"
    using h li by (simp add: manager_score_def monthly_before_sum Let_def)
  show "getGameweeksForMonth league_example (currentMonth league_example) = [21, 22]"
    by (rule month_example)
  show "currentGameweek app_pending = 22" by (simp add: app_pending_def)
  show "map_option (map gameweekPoints) (calculateScores app_pending league_example) = Some [63]"
    unfolding scores_pending by simp
  show "map_option (map monthlyPoints) (calculateScores app_pending league_example) = Some [113]"
    unfolding scores_pending by simp
qed

theorem monthly_total_witness:
  "\<exists>s. manager_score app_pending league_example [21, 22] \<lparr>m_entry = 7, m_total = 950\<rparr> = Some s \<and>
       gameweekPoints s = 63 \<and> monthlyPoints s = 113"
proof -
  have p: "players app_pending = Some squad_442" by (simp add: app_pending_def)
  have d: "managerData league_example (m_entry \<lparr>m_entry = 7, m_total = 950\<rparr>) =
      Some \<lparr>history = Some [\<lparr>h_event = 21, h_points = 50\<rparr>], data_picks = roster None None\<rparr>"
    by (simp add: league_example_def)
  have r: "history \<lparr>history = Some [\<lparr>h_event = 21, h_points = 50\<rparr>],
      data_picks = roster None None\<rparr> = Some [\<lparr>h_event = 21, h_points = 50\<rparr>]"
    by simp
  from monthly_total[OF p d r, of "[21, 22]"]
  obtain li s where
    "calculateLiveInfo app_pending (data_picks \<lparr>history = Some [\<lparr>h_event = 21, h_points = 50\<rparr>],
        data_picks = roster None None\<rparr>) = Some li"
    "manager_score app_pending league_example [21, 22] \<lparr>m_entry = 7, m_total = 950\<rparr> = Some s"
    "gameweekPoints s = livePoints li"
    "monthlyPoints s =
          sum_list (map h_points
            (filter (\<lambda>h. h_event h \<in> set [21, 22] \<and> h_event h \<noteq> currentGameweek app_pending)
               [\<lparr>h_event = 21, h_points = 50\<rparr>])) +
          (if currentGameweek app_pending \<in> set [21, 22] then livePoints li else 0)"
    by blast
  moreover have "currentGameweek app_pending = 22" by (simp add: app_pending_def)
  ultimately show ?thesis by (auto simp: live_pending)
qed

section \<open>The ranking\<close>

lemma score_cmp_le: "score_cmp v x y \<le> 0 \<longleftrightarrow> ranks_before v x y"
  by (auto simp: score_cmp_def ranks_before_def)

lemma score_cmp_total: "score_cmp v x y \<le> 0 \<or> score_cmp v y x \<le> 0"
  by (auto simp: score_cmp_def)

lemma score_cmp_trans:
  "score_cmp v x y \<le> 0 \<Longrightarrow> score_cmp v y z \<le> 0 \<Longrightarrow> score_cmp v x z \<le> 0"
  unfolding score_cmp_le ranks_before_def by auto

lemma score_cmp_tied:
  "rank_key v x = k \<Longrightarrow> rank_key v y = k \<Longrightarrow> score_cmp v x y \<le> 0"
  by (auto simp: rank_key_def score_cmp_def)

text \<open>
  C9. The ranking is a permutation of the scores, ordered descending by the primary
  field of the view (the monthly total in the monthly view, the gameweek total in
  any other view), then by the live points of the current gameweek, then by the
  career total; scores that agree on all three keys keep their input order.
\<close>

theorem ranking_order:
  "mset (sortScores l scores) = mset scores \<and>
   sorted_wrt (ranks_before (currentView l)) (sortScores l scores) \<and>
   (\<forall>k. filter (\<lambda>s. rank_key (currentView l) s = k) (sortScores l scores) =
        filter (\<lambda>s. rank_key (currentView l) s = k) scores) \<and>
   sort_field ''monthly'' s = monthlyPoints s \<and>
   (\<forall>v. v \<noteq> ''monthly'' \<longrightarrow> sort_field v s = gameweekPoints s)"
proof (intro conjI allI impI)
  show "mset (sortScores l scores) = mset scores"
    unfolding sortScores_def by (rule mset_js_sort)
  have "sorted_wrt (\<lambda>x y. score_cmp (currentView l) x y \<le> 0) (sortScores l scores)"
    unfolding sortScores_def
    by (rule sorted_js_sort[OF score_cmp_total score_cmp_trans])
  then show "sorted_wrt (ranks_before (currentView l)) (sortScores l scores)"
    by (simp add: score_cmp_le)
  show "filter (\<lambda>s. rank_key (currentView l) s = k) (sortScores l scores) =
        filter (\<lambda>s. rank_key (currentView l) s = k) scores" for k
    unfolding sortScores_def by (rule js_sort_stable) (rule score_cmp_tied)
  show "sort_field ''monthly'' s = monthlyPoints s" by (simp add: sort_field_def)
  show "sort_field v s = gameweekPoints s" if "v \<noteq> ''monthly''" for v
    using that by (simp add: sort_field_def)
qed

lemma mk_score_sel:
  "s_entry (mk_score e tot gw mon) = e" "s_total (mk_score e tot gw mon) = tot"
  "gameweekPoints (mk_score e tot gw mon) = gw" "monthlyPoints (mk_score e tot gw mon) = mon"
  by (simp_all add: mk_score_def)

lemma sort_field_monthly: "sort_field ''monthly'' s = monthlyPoints s"
  by (simp add: sort_field_def)

theorem ranking_order_witness:
  "map s_entry (sortScores league_example scores_example) = [3, 2, 4, 1] \<and>
   filter (\<lambda>s. rank_key ''monthly'' s = (113, 63, 950)) (sortScores league_example scores_example) =
     [mk_score 2 950 63 113, mk_score 4 950 63 113] \<and>
   sort_field ''gameweek'' (mk_score 2 950 63 113) = 63"
proof -
  have v: "currentView league_example = ''monthly''" by (simp add: league_example_def)
  note r = ranking_order[of league_example scores_example "mk_score 2 950 63 113"]
  note stable = r[THEN conjunct2, THEN conjunct2, THEN conjunct1, rule_format, of "(113, 63, 950)"]
  note other = r[THEN conjunct2, THEN conjunct2, THEN conjunct2, THEN conjunct2, rule_format,
      of "''gameweek''"]
  have "filter (\<lambda>s. rank_key ''monthly'' s = (113, 63, 950)) scores_example =
      [mk_score 2 950 63 113, mk_score 4 950 63 113]"
    by (simp add: scores_example_def rank_key_def sort_field_monthly mk_score_sel)
  with stable have 1: "filter (\<lambda>s. rank_key ''monthly'' s = (113, 63, 950))
        (sortScores league_example scores_example) =
      [mk_score 2 950 63 113, mk_score 4 950 63 113]"
    unfolding v by simp
  have "''gameweek'' \<noteq> ''monthly''" by simp
  from other[OF this] have 2: "sort_field ''gameweek'' (mk_score 2 950 63 113) = 63"
    by (simp add: mk_score_sel)
  have 3: "map s_entry (sortScores league_example scores_example) = [3, 2, 4, 1]"
    unfolding sortScores_def v js_sort_def scores_example_def
    by (simp add: score_cmp_def sort_field_monthly mk_score_sel)
  from 3 1 2 show ?thesis by (intro conjI)
qed

end
